theory Spec2Isabelle
  imports Main
begin

section \<open>The host editor's API, as the plug-in calls it\<close>

text \<open>
  \<^verbatim>\<open>clickable_urls.py\<close> is a Sublime Text plug-in. The classes \<^verbatim>\<open>sublime.Region\<close> and
  \<^verbatim>\<open>sublime.View\<close> belong to the host; the plug-in only calls them. A region is a pair of
  text points \<^verbatim>\<open>a\<close>, \<^verbatim>\<open>b\<close>. The methods the plug-in calls are embedded as the host's
  \<^verbatim>\<open>sublime.py\<close> defines them:
  \<^verbatim>\<open>begin() = min(a, b)\<close>, \<^verbatim>\<open>end() = max(a, b)\<close>, \<^verbatim>\<open>empty() = (a == b)\<close>,
  \<^verbatim>\<open>size() = abs(a - b)\<close>, \<^verbatim>\<open>__len__() = size()\<close>,
  \<^verbatim>\<open>contains(pt) = (pt >= begin() and pt <= end())\<close> and
  \<^verbatim>\<open>contains(region) = contains(region.a) and contains(region.b)\<close>.
\<close>

datatype region = Region (region_a: nat) (region_b: nat)

definition region_begin :: "region \<Rightarrow> nat" where
  "region_begin r = min (region_a r) (region_b r)"

definition region_end :: "region \<Rightarrow> nat" where
  "region_end r = max (region_a r) (region_b r)"

definition region_empty :: "region \<Rightarrow> bool" where
  "region_empty r = (region_a r = region_b r)"

definition region_size :: "region \<Rightarrow> nat" where
  "region_size r = region_end r - region_begin r"

definition contains_point :: "region \<Rightarrow> nat \<Rightarrow> bool" where
  "contains_point r pt = (region_begin r \<le> pt \<and> pt \<le> region_end r)"

definition region_contains :: "region \<Rightarrow> region \<Rightarrow> bool" where
  "region_contains r x = (contains_point r (region_a x) \<and> contains_point r (region_b x))"

text \<open>
  Python's truth value of a region, as \<^verbatim>\<open>if not selection\<close> reads it: the class defines
  \<^verbatim>\<open>__len__\<close>, so a region of size 0 is false.
\<close>

definition region_truthy :: "region \<Rightarrow> bool" where
  "region_truthy r = (region_size r \<noteq> 0)"

text \<open>
  What the plug-in reads of a view: its \<^verbatim>\<open>id()\<close>, its text (through \<^verbatim>\<open>substr\<close>), its
  selections \<^verbatim>\<open>sel()\<close>, the scope label \<^verbatim>\<open>scope_name(pt)\<close>, and the host's regular
  expression search \<^verbatim>\<open>find_all(pattern)\<close>, whose engine is the host's.
\<close>

record view =
  view_id :: nat
  view_text :: string
  view_sel :: "region list"
  view_scope_name :: "nat \<Rightarrow> string"
  view_find_all :: "string \<Rightarrow> region list"

definition view_substr :: "view \<Rightarrow> region \<Rightarrow> string" where
  "view_substr v r = take (region_end r - region_begin r) (drop (region_begin r) (view_text v))"

text \<open>
  The settings file, read with \<^verbatim>\<open>settings.get(key, default)\<close>: a key that is not set is
  \<open>None\<close> here and the default is given at the call.
\<close>

record settings =
  cfg_auto_find_urls :: "bool option"
  cfg_highlight_urls :: "bool option"
  cfg_max_url_limit :: "int option"
  cfg_file_folder_regex :: "string option"
  cfg_clickable_urls_browser :: "string option"

definition settings_get :: "'a option \<Rightarrow> 'a \<Rightarrow> 'a" where
  "settings_get entry dflt = (case entry of None \<Rightarrow> dflt | Some x \<Rightarrow> x)"

text \<open>The exceptions that leave a function of the plug-in.\<close>

datatype error = IndexError | NameError string | ValueError

text \<open>
  The rest of the environment: \<^verbatim>\<open>sublime.version()\<close> (a string), \<^verbatim>\<open>os.path.isfile\<close>, and
  the outcome of \<^verbatim>\<open>webbrowser.get(browser).open(url, autoraise=True)\<close>. The call returns
  \<^verbatim>\<open>True\<close> when the browser was started and \<^verbatim>\<open>False\<close> when it could not be (the command
  was not found or exited with an error); \<^verbatim>\<open>webbrowser.get\<close> raises \<^verbatim>\<open>webbrowser.Error\<close>
  when no browser of that name is registered; and it raises another exception, which is
  not a \<^verbatim>\<open>webbrowser.Error\<close>, on a command line it cannot split (\<^verbatim>\<open>ValueError\<close>).
\<close>

datatype launch = Returned bool | Raised_webbrowser_Error | Raised_other error

record host =
  sublime_version :: string
  os_path_isfile :: "string \<Rightarrow> bool"
  webbrowser_open :: "string option \<Rightarrow> string \<Rightarrow> launch"

text \<open>Python compares strings by code point, lexicographically.\<close>

fun py_str_lt :: "string \<Rightarrow> string \<Rightarrow> bool" where
  "py_str_lt [] [] = False"
| "py_str_lt [] (y # ys) = True"
| "py_str_lt (x # xs) [] = False"
| "py_str_lt (x # xs) (y # ys) =
     (if (of_char x :: nat) < of_char y then True
      else if (of_char x :: nat) = of_char y then py_str_lt xs ys
      else False)"

text \<open>
  The calls the plug-in makes to the outside, in the order it makes them: the scan, the
  log line, the marker operations, opening a file or a browser, the modal error message,
  and the two operations of the semaphore.
\<close>

datatype draw_flags = Draw_solid_underline | Draw_empty_as_overwrite

datatype effect =
    Find_all nat string
  | Print string nat
  | Add_regions nat string "region list" string draw_flags
  | Erase_regions nat string
  | Open_file string
  | Browser_launch "string option" string
  | Error_message string
  | Sem_acquire
  | Sem_release

section \<open>UrlHighlighter\<close>

text \<open>
  The class attributes \<^verbatim>\<open>urls_for_view\<close>, \<^verbatim>\<open>scopes_for_view\<close> (dictionaries keyed by view
  id), \<^verbatim>\<open>ignored_views\<close> (a list) and \<^verbatim>\<open>highlight_semaphore\<close>
  (\<^verbatim>\<open>threading.Semaphore()\<close>, a counter that starts at 1).
\<close>

record state =
  urls_for_view :: "nat \<rightharpoonup> region list"
  scopes_for_view :: "nat \<rightharpoonup> string list"
  ignored_views :: "nat list"
  highlight_semaphore :: nat

definition URL_REGEX :: string where
  \<open>URL_REGEX = [CHR 0x5C] @ ''bhttps?://[-A-Za-z0-9+&@#/%?=~_()|!:,.;'' @ [CHR 0x27]
     @ '']*[-A-Za-z0-9+&@#/%=~_(|]''\<close>

definition DEFAULT_MAX_URLS :: int where
  "DEFAULT_MAX_URLS = 200"

definition combined_regex :: "string \<Rightarrow> string" where
  "combined_regex file_folder_regex =
     (if file_folder_regex \<noteq> [] then ''('' @ URL_REGEX @ '')|('' @ file_folder_regex @ '')''
      else URL_REGEX)"

definition marker_key :: "string \<Rightarrow> string" where
  "marker_key scope_name = ''clickable-urls '' @ scope_name"

text \<open>
  \<^verbatim>\<open>underline_regions\<close>: one \<^verbatim>\<open>add_regions\<close> call; hosts before 3019 get one empty region
  per character instead of the regions themselves.
\<close>

definition underline_regions :: "host \<Rightarrow> view \<Rightarrow> string \<Rightarrow> region list \<Rightarrow> effect" where
  "underline_regions h v scope_name regions =
     (if \<not> py_str_lt (sublime_version h) ''3019''
      then Add_regions (view_id v) (marker_key scope_name) regions scope_name Draw_solid_underline
      else Add_regions (view_id v) (marker_key scope_name)
             (concat (map (\<lambda>r. map (\<lambda>pos. Region pos pos) [region_a r ..< region_b r]) regions))
             scope_name Draw_empty_as_overwrite)"

text \<open>
  \<^verbatim>\<open>update_view_scopes\<close>. \<^verbatim>\<open>if old_scopes:\<close> is false for a missing entry and for an
  empty collection. The set difference is iterated in an order Python does not fix; the
  model takes the order of the old collection.
\<close>

definition unused_scopes :: "string list \<Rightarrow> string list \<Rightarrow> string list" where
  "unused_scopes old_scopes new_scopes = filter (\<lambda>x. x \<notin> set new_scopes) (remdups old_scopes)"

definition update_view_scopes :: "view \<Rightarrow> string list \<Rightarrow> state \<Rightarrow> state \<times> effect list" where
  "update_view_scopes v new_scopes s =
     (let erased = (case scopes_for_view s (view_id v) of
                      None \<Rightarrow> []
                    | Some old_scopes \<Rightarrow>
                        if old_scopes = [] then []
                        else map (\<lambda>x. Erase_regions (view_id v) (marker_key x))
                               (unused_scopes old_scopes new_scopes))
      in (s\<lparr>scopes_for_view := (scopes_for_view s)(view_id v \<mapsto> new_scopes)\<rparr>, erased))"

text \<open>
  \<^verbatim>\<open>highlight_urls\<close>. \<^verbatim>\<open>scope_map\<close> is a dictionary from scope label to the list of its
  regions, kept here as an association list in insertion order;
  \<^verbatim>\<open>scope_map.setdefault(scope_name, []).append(url)\<close> is \<open>setdefault_append\<close>.
\<close>

fun setdefault_append ::
  "string \<Rightarrow> region \<Rightarrow> (string \<times> region list) list \<Rightarrow> (string \<times> region list) list" where
  "setdefault_append k url [] = [(k, [url])]"
| "setdefault_append k url ((k', urls) # m) =
     (if k = k' then (k', urls @ [url]) # m else (k', urls) # setdefault_append k url m)"

definition build_scope_map :: "view \<Rightarrow> region list \<Rightarrow> (string \<times> region list) list" where
  "build_scope_map v urls =
     foldl (\<lambda>m url. setdefault_append (view_scope_name v (region_a url)) url m) [] urls"

definition highlight_urls :: "host \<Rightarrow> view \<Rightarrow> region list \<Rightarrow> state \<Rightarrow> state \<times> effect list" where
  "highlight_urls h v urls s =
     (let scope_map = build_scope_map v urls;
          added = map (\<lambda>(scope_name, regions). underline_regions h v scope_name regions) scope_map;
          (s', erased) = update_view_scopes v (map fst scope_map) s
      in (s', added @ erased))"

text \<open>\<^verbatim>\<open>update_url_highlights\<close>, the entry point of the logic.\<close>

definition update_url_highlights ::
  "host \<Rightarrow> view \<Rightarrow> bool \<Rightarrow> settings \<Rightarrow> state \<Rightarrow> state \<times> effect list" where
  "update_url_highlights h v force st s =
     (if \<not> force \<and> \<not> settings_get (cfg_auto_find_urls st) True then (s, [])
      else if view_id v \<in> set (ignored_views s) then (s, [])
      else
        let pattern = combined_regex (settings_get (cfg_file_folder_regex st) []);
            urls = view_find_all v pattern
        in if int (length urls) > settings_get (cfg_max_url_limit st) DEFAULT_MAX_URLS
           then (s\<lparr>ignored_views := ignored_views s @ [view_id v]\<rparr>,
                 [Find_all (view_id v) pattern,
                  Print ''UrlHighlighter: ignoring view with %u URLs'' (length urls)])
           else
             let s1 = s\<lparr>urls_for_view := (urls_for_view s)(view_id v \<mapsto> urls)\<rparr>
             in if settings_get (cfg_highlight_urls st) True
                then (let (s2, marks) = highlight_urls h v urls s1
                      in (s2, Find_all (view_id v) pattern # marks))
                else (s1, [Find_all (view_id v) pattern]))"

text \<open>
  \<^verbatim>\<open>update_url_highlights_async\<close>: the same between \<^verbatim>\<open>acquire()\<close> and \<^verbatim>\<open>release()\<close>.
  \<^verbatim>\<open>acquire()\<close> waits while the counter is 0; in this sequential model no other thread
  can release it, so the call does not return: \<open>None\<close>.
\<close>

definition update_url_highlights_async ::
  "host \<Rightarrow> view \<Rightarrow> bool \<Rightarrow> settings \<Rightarrow> state \<Rightarrow> (state \<times> effect list) option" where
  "update_url_highlights_async h v force st s =
     (if highlight_semaphore s = 0 then None
      else
        let s0 = s\<lparr>highlight_semaphore := highlight_semaphore s - 1\<rparr>;
            (s1, body) = update_url_highlights h v force st s0
        in Some (s1\<lparr>highlight_semaphore := highlight_semaphore s1 + 1\<rparr>,
                 Sem_acquire # body @ [Sem_release]))"

text \<open>The event handlers and the command that start a scan.\<close>

definition on_activated :: "host \<Rightarrow> view \<Rightarrow> settings \<Rightarrow> state \<Rightarrow> state \<times> effect list" where
  "on_activated h v st s = update_url_highlights h v False st s"

definition on_load :: "host \<Rightarrow> view \<Rightarrow> settings \<Rightarrow> state \<Rightarrow> state \<times> effect list" where
  "on_load h v st s =
     (if py_str_lt (sublime_version h) ''3000'' then update_url_highlights h v False st s
      else (s, []))"

definition on_modified :: "host \<Rightarrow> view \<Rightarrow> settings \<Rightarrow> state \<Rightarrow> state \<times> effect list" where
  "on_modified h v st s =
     (if py_str_lt (sublime_version h) ''3000'' then update_url_highlights h v False st s
      else (s, []))"

definition on_load_async ::
  "host \<Rightarrow> view \<Rightarrow> settings \<Rightarrow> state \<Rightarrow> (state \<times> effect list) option" where
  "on_load_async h v st s = update_url_highlights_async h v False st s"

definition on_modified_async ::
  "host \<Rightarrow> view \<Rightarrow> settings \<Rightarrow> state \<Rightarrow> (state \<times> effect list) option" where
  "on_modified_async h v st s = update_url_highlights_async h v False st s"

definition FindUrlsCommand_run ::
  "host \<Rightarrow> view \<Rightarrow> settings \<Rightarrow> state \<Rightarrow> (state \<times> effect list) option" where
  "FindUrlsCommand_run h v st s = update_url_highlights_async h v True st s"

text \<open>
  \<^verbatim>\<open>on_close\<close>: \<^verbatim>\<open>if view.id() in map: del map[view.id()]\<close> for the two dictionaries and
  then for the list \<^verbatim>\<open>ignored_views\<close>. On a list, \<^verbatim>\<open>in\<close> tests the values and \<^verbatim>\<open>del\<close>
  takes an index: it deletes the element at position \<^verbatim>\<open>view.id()\<close> and raises
  \<^verbatim>\<open>IndexError\<close> when the list is not that long. View ids are not negative.
\<close>

definition del_index :: "nat \<Rightarrow> 'a list \<Rightarrow> 'a list" where
  "del_index i xs = take i xs @ drop (Suc i) xs"

definition on_close :: "view \<Rightarrow> state \<Rightarrow> state \<times> error option" where
  "on_close v s =
     (let s1 = (if view_id v \<in> dom (urls_for_view s)
                then s\<lparr>urls_for_view := (urls_for_view s)(view_id v := None)\<rparr> else s);
          s2 = (if view_id v \<in> dom (scopes_for_view s1)
                then s1\<lparr>scopes_for_view := (scopes_for_view s1)(view_id v := None)\<rparr> else s1)
      in if view_id v \<in> set (ignored_views s2)
         then (if view_id v < length (ignored_views s2)
               then (s2\<lparr>ignored_views := del_index (view_id v) (ignored_views s2)\<rparr>, None)
               else (s2, Some IndexError))
         else (s2, None))"

section \<open>Opening URLs\<close>

text \<open>
  \<^verbatim>\<open>open_url\<close>. The value that \<^verbatim>\<open>open\<close> returns is not read; the \<^verbatim>\<open>except\<close> clause
  catches \<^verbatim>\<open>webbrowser.Error\<close> and nothing else, so any other exception leaves the function.
\<close>

definition browser_error_text :: string where
  \<open>browser_error_text =
     ''Failed to open browser. See "Customizing the browser" in the README.''\<close>

definition open_url :: "host \<Rightarrow> settings \<Rightarrow> string \<Rightarrow> effect list \<times> error option" where
  "open_url h st url =
     (if os_path_isfile h url then ([Open_file url], None)
      else
        let browser = cfg_clickable_urls_browser st
        in (case webbrowser_open h browser url of
              Returned started \<Rightarrow> ([Browser_launch browser url], None)
            | Raised_webbrowser_Error \<Rightarrow>
                ([Browser_launch browser url, Error_message browser_error_text], None)
            | Raised_other e \<Rightarrow> ([Browser_launch browser url], Some e)))"

text \<open>
  \<^verbatim>\<open>OpenUrlUnderCursorCommand.run\<close>. \<open>cursor_target\<close> is the region whose text is opened:
  the selection itself when it is not empty, else
  \<^verbatim>\<open>next((url for url in urls if url.contains(selection)), None)\<close>, with the early
  return of \<^verbatim>\<open>if not selection\<close>.
\<close>

definition cursor_target :: "region list \<Rightarrow> region \<Rightarrow> region option" where
  "cursor_target urls selection =
     (if region_empty selection
      then (case find (\<lambda>url. region_contains url selection) urls of
              None \<Rightarrow> None
            | Some url \<Rightarrow> if \<not> region_truthy url then None else Some url)
      else Some selection)"

definition OpenUrlUnderCursorCommand_run ::
  "host \<Rightarrow> settings \<Rightarrow> view \<Rightarrow> state \<Rightarrow> state \<times> effect list \<times> error option" where
  "OpenUrlUnderCursorCommand_run h st v s =
     (case urls_for_view s (view_id v) of
        None \<Rightarrow> (s, [], None)
      | Some urls \<Rightarrow>
          (case view_sel v of
             [] \<Rightarrow> (s, [], Some IndexError)
           | selection # _ \<Rightarrow>
               (case cursor_target urls selection of
                  None \<Rightarrow> (s, [], None)
                | Some target \<Rightarrow> (s, open_url h st (view_substr v target)))))"

text \<open>
  \<^verbatim>\<open>OpenAllUrlsCommand.run\<close>. The loop body is \<^verbatim>\<open>open_url(url, view)\<close>: the name \<^verbatim>\<open>view\<close>
  is looked up among the locals of \<^verbatim>\<open>run\<close> (its parameters, the loop variable and, under
  Python 2, the variable of the list comprehension) and the names the module binds, and
  Python raises \<^verbatim>\<open>NameError\<close> for a name bound in neither (no builtin is called
  \<^verbatim>\<open>view\<close>).
  \<^verbatim>\<open>set([...])\<close> is iterated in an order Python does not fix; the model takes the order of
  first occurrence.
\<close>

definition module_globals :: "string list" where
  "module_globals =
     [''sublime'', ''sublime_plugin'', ''webbrowser'', ''threading'', ''os'',
      ''UrlHighlighter'', ''FindUrlsCommand'', ''open_url'', ''OpenUrlUnderCursorCommand'',
      ''OpenAllUrlsCommand'']"

definition OpenAllUrlsCommand_run_locals :: "string list" where
  "OpenAllUrlsCommand_run_locals = [''self'', ''edit'', ''url'', ''url_region'']"

definition name_bound :: "string list \<Rightarrow> string \<Rightarrow> bool" where
  "name_bound locals name = (name \<in> set locals \<or> name \<in> set module_globals)"

fun open_each :: "host \<Rightarrow> settings \<Rightarrow> string list \<Rightarrow> effect list \<times> error option" where
  "open_each h st [] = ([], None)"
| "open_each h st (url # rest) =
     (if name_bound OpenAllUrlsCommand_run_locals ''view''
      then (case open_url h st url of
              (opened, Some e) \<Rightarrow> (opened, Some e)
            | (opened, None) \<Rightarrow>
                (let (later, err) = open_each h st rest in (opened @ later, err)))
      else ([], Some (NameError ''view'')))"

definition OpenAllUrlsCommand_run ::
  "host \<Rightarrow> settings \<Rightarrow> view \<Rightarrow> state \<Rightarrow> state \<times> effect list \<times> error option" where
  "OpenAllUrlsCommand_run h st v s =
     (case urls_for_view s (view_id v) of
        None \<Rightarrow> (s, [], None)
      | Some urls \<Rightarrow>
          (let (opened, err) = open_each h st (remdups (map (view_substr v) urls))
           in (s, opened, err)))"

section \<open>Notions of the specification\<close>

text \<open>
  The distinct scope labels at the start offsets of a list of matches, in the order of
  their first occurrence, and the matches that carry a given label.
\<close>

definition scope_labels :: "view \<Rightarrow> region list \<Rightarrow> string list" where
  "scope_labels v urls = rev (remdups (rev (map (\<lambda>url. view_scope_name v (region_a url)) urls)))"

definition regions_of_scope :: "view \<Rightarrow> region list \<Rightarrow> string \<Rightarrow> region list" where
  "regions_of_scope v urls scope_name =
     filter (\<lambda>url. view_scope_name v (region_a url) = scope_name) urls"

text \<open>The scope set stored for a view before an update; empty when there is no entry.\<close>

definition old_scopes_of :: "state \<Rightarrow> view \<Rightarrow> string list" where
  "old_scopes_of s v =
     (case scopes_for_view s (view_id v) of None \<Rightarrow> [] | Some old_scopes \<Rightarrow> old_scopes)"

text \<open>
  A call of \<^verbatim>\<open>update_url_highlights\<close> performs a scan when it passes the two early
  returns: the \<^verbatim>\<open>auto_find_urls\<close> gate (which \<^verbatim>\<open>force\<close> overrides) and the test of the
  Ignore Set. \<open>scan_pattern\<close> is the pattern such a scan searches for.
\<close>

definition scan_pattern :: "settings \<Rightarrow> string" where
  "scan_pattern st = combined_regex (settings_get (cfg_file_folder_regex st) [])"

definition scan_performed :: "bool \<Rightarrow> settings \<Rightarrow> view \<Rightarrow> state \<Rightarrow> bool" where
  "scan_performed force st v s =
     ((force \<or> settings_get (cfg_auto_find_urls st) True) \<and> view_id v \<notin> set (ignored_views s))"

text \<open>Any sequence of later calls of \<^verbatim>\<open>update_url_highlights\<close>, on any views.\<close>

fun scans :: "(host \<times> view \<times> bool \<times> settings) list \<Rightarrow> state \<Rightarrow> state" where
  "scans [] s = s"
| "scans ((h, v, force, st) # calls) s = scans calls (fst (update_url_highlights h v force st s))"

text \<open>The marker operations among the effects.\<close>

fun is_add :: "effect \<Rightarrow> bool" where
  "is_add (Add_regions i k rs sc fl) = True"
| "is_add e = False"

fun is_erase :: "effect \<Rightarrow> bool" where
  "is_erase (Erase_regions i k) = True"
| "is_erase e = False"

text \<open>
  \<^verbatim>\<open>resolveUnderCursor\<close> as the specification words it: the first stored match whose
  half-open range \<^verbatim>\<open>[start, end)\<close> contains the cursor offset, or nothing.
\<close>

definition resolveUnderCursor_spec :: "view \<Rightarrow> region list \<Rightarrow> nat \<Rightarrow> string option" where
  "resolveUnderCursor_spec v matches cursorOffset =
     (case find (\<lambda>m. region_begin m \<le> cursorOffset \<and> cursorOffset < region_end m) matches of
        None \<Rightarrow> None
      | Some m \<Rightarrow> Some (view_substr v m))"

text \<open>
  The order of marker operations as the specification words it: every erase before any
  add.
\<close>

fun erases_before_adds :: "effect list \<Rightarrow> bool" where
  "erases_before_adds [] = True"
| "erases_before_adds (e # tr) =
     (if is_add e then \<not> list_ex is_erase tr else erases_before_adds tr)"

text \<open>
  A sequence of effects keeps the lock discipline when the semaphore is acquired only
  while free, released only while held and not held at the end, and every other effect
  (the scan, the log line, the marker operations) is issued while it is held.
  \<open>held\<close> says whether the caller holds the semaphore at the start.
\<close>

fun lock_discipline :: "bool \<Rightarrow> effect list \<Rightarrow> bool" where
  "lock_discipline held [] = (\<not> held)"
| "lock_discipline held (Sem_acquire # tr) = (\<not> held \<and> lock_discipline True tr)"
| "lock_discipline held (Sem_release # tr) = (held \<and> lock_discipline False tr)"
| "lock_discipline held (e # tr) = (held \<and> lock_discipline held tr)"

section \<open>Concrete inputs\<close>

text \<open>
  A settings file that sets nothing, so that every default applies, and two that set the
  ceiling \<^verbatim>\<open>max_url_limit\<close> to 1 and to 2.
\<close>

definition default_settings :: settings where
  "default_settings =
     \<lparr>cfg_auto_find_urls = None, cfg_highlight_urls = None, cfg_max_url_limit = None,
      cfg_file_folder_regex = None, cfg_clickable_urls_browser = None\<rparr>"

definition limit_one :: settings where
  "limit_one = default_settings\<lparr>cfg_max_url_limit := Some 1\<rparr>"

definition limit_two :: settings where
  "limit_two = default_settings\<lparr>cfg_max_url_limit := Some 2\<rparr>"

text \<open>
  A host of version 3126 on which \<^verbatim>\<open>/etc/hosts\<close> is the only file. Its default browser
  starts. A configured browser is treated as Python's \<^verbatim>\<open>webbrowser\<close> module treats it on a
  machine where no browser of that name exists: the command line \<^verbatim>\<open>no-such-browser %s\<close>
  is run and fails, so \<^verbatim>\<open>open\<close> returns \<^verbatim>\<open>False\<close>; a command line with an unbalanced
  quote makes \<^verbatim>\<open>webbrowser.get\<close> raise \<^verbatim>\<open>ValueError\<close>; any other name is not registered and
  \<^verbatim>\<open>webbrowser.get\<close> raises \<^verbatim>\<open>webbrowser.Error\<close>.
\<close>

definition unbalanced_browser :: string where
  \<open>unbalanced_browser = ''foo " %s''\<close>

definition st3_host :: host where
  "st3_host =
     \<lparr>sublime_version = ''3126'', os_path_isfile = (\<lambda>p. p = ''/etc/hosts''),
      webbrowser_open =
        (\<lambda>browser url.
           case browser of
             None \<Rightarrow> Returned True
           | Some name \<Rightarrow>
               if name = ''no-such-browser %s'' then Returned False
               else if name = unbalanced_browser then Raised_other ValueError
               else Raised_webbrowser_Error)\<rparr>"


text \<open>The state when the plug-in is loaded: empty tables, the semaphore free.\<close>

definition initial_state :: state where
  "initial_state =
     \<lparr>urls_for_view = Map.empty, scopes_for_view = Map.empty, ignored_views = [],
      highlight_semaphore = 1\<rparr>"

text \<open>
  View 1 with one URL, and the same view after an edit that added a second URL inside a
  comment; the cursor stands right after the first URL.
\<close>

definition one_url_view :: view where
  "one_url_view =
     \<lparr>view_id = 1, view_text = ''http://a'', view_sel = [Region 0 0],
      view_scope_name = (\<lambda>pt. ''text.plain''),
      view_find_all = (\<lambda>pattern. [Region 0 8])\<rparr>"

definition two_url_view :: view where
  "two_url_view =
     \<lparr>view_id = 1, view_text = ''http://a http://b'', view_sel = [Region 8 8],
      view_scope_name = (\<lambda>pt. if pt < 9 then ''text.plain'' else ''comment.line''),
      view_find_all = (\<lambda>pattern. [Region 0 8, Region 9 17])\<rparr>"

text \<open>The states after a first scan of each of the two.\<close>

definition scanned_once :: state where
  "scanned_once = fst (update_url_highlights st3_host one_url_view False limit_one initial_state)"

definition scanned_state :: state where
  "scanned_state =
     fst (update_url_highlights st3_host two_url_view False default_settings initial_state)"

text \<open>A state whose scope table holds \<^verbatim>\<open>{"a", "b"}\<close> for view 1.\<close>

definition scopes_a_b :: state where
  "scopes_a_b = initial_state\<lparr>scopes_for_view := [1 \<mapsto> [''a'', ''b'']]\<rparr>"

text \<open>
  View 2 with the stored matches \<^verbatim>\<open>(0,5)\<close> and \<^verbatim>\<open>(10,15)\<close>, and the selection as a
  parameter.
\<close>

definition claim_view :: "region \<Rightarrow> view" where
  "claim_view selection =
     \<lparr>view_id = 2, view_text = ''aaaaa.....bbbbb.....'', view_sel = [selection],
      view_scope_name = (\<lambda>pt. ''text.plain''),
      view_find_all = (\<lambda>pattern. [Region 0 5, Region 10 15])\<rparr>"

definition claim_state :: state where
  "claim_state = initial_state\<lparr>urls_for_view := [2 \<mapsto> [Region 0 5, Region 10 15]]\<rparr>"

text \<open>View 1 after an edit that put its one URL inside a comment.\<close>

definition comment_view :: view where
  "comment_view =
     \<lparr>view_id = 1, view_text = ''// http://a'', view_sel = [Region 0 0],
      view_scope_name = (\<lambda>pt. ''comment.line''),
      view_find_all = (\<lambda>pattern. [Region 3 11])\<rparr>"

text \<open>
  The state after a first scan of view 1 that found two matches under a ceiling of 1:
  the view is in the Ignore Set.
\<close>

definition ignored_state :: state where
  "ignored_state =
     fst (update_url_highlights st3_host two_url_view False limit_one initial_state)"

text \<open>View 3, with the same URL twice and another one, and the state after its scan.\<close>

definition dup_view :: view where
  "dup_view =
     \<lparr>view_id = 3, view_text = ''http://a http://a http://b'', view_sel = [Region 0 0],
      view_scope_name = (\<lambda>pt. ''text.plain''),
      view_find_all = (\<lambda>pattern. [Region 0 8, Region 9 17, Region 18 26])\<rparr>"

definition dup_state :: state where
  "dup_state =
     fst (update_url_highlights st3_host dup_view False default_settings initial_state)"

section \<open>The scope map\<close>

lemma setdefault_append_map:
  "distinct ks \<Longrightarrow>
     setdefault_append k u (map (\<lambda>k'. (k', g k')) ks) =
       (if k \<in> set ks then map (\<lambda>k'. (k', if k' = k then g k' @ [u] else g k')) ks
        else map (\<lambda>k'. (k', g k')) ks @ [(k, [u])])"
  by (induction ks) auto

lemma build_scope_map_snoc:
  "build_scope_map v (urls @ [u]) =
     setdefault_append (view_scope_name v (region_a u)) u (build_scope_map v urls)"
  by (simp add: build_scope_map_def)

lemma scope_labels_snoc:
  "scope_labels v (urls @ [u]) =
     (if view_scope_name v (region_a u) \<in> set (scope_labels v urls) then scope_labels v urls
      else scope_labels v urls @ [view_scope_name v (region_a u)])"
  by (simp add: scope_labels_def)

lemma set_scope_labels:
  "set (scope_labels v urls) = (\<lambda>url. view_scope_name v (region_a url)) ` set urls"
  by (simp add: scope_labels_def)

lemma distinct_scope_labels: "distinct (scope_labels v urls)"
  by (simp add: scope_labels_def)

text \<open>
  The dictionary \<^verbatim>\<open>scope_map\<close> that \<^verbatim>\<open>highlight_urls\<close> builds has one entry per distinct
  label, holding the matches of that label in their order.
\<close>

lemma build_scope_map_eq:
  "build_scope_map v urls = map (\<lambda>k. (k, regions_of_scope v urls k)) (scope_labels v urls)"
proof (induction urls rule: rev_induct)
  case Nil
  show ?case by (simp add: build_scope_map_def scope_labels_def)
next
  case (snoc u urls)
  let ?k = "view_scope_name v (region_a u)"
  have step: "build_scope_map v (urls @ [u]) =
      setdefault_append ?k u (map (\<lambda>k. (k, regions_of_scope v urls k)) (scope_labels v urls))"
    by (simp add: build_scope_map_snoc snoc.IH)
  show ?case
  proof (cases "?k \<in> set (scope_labels v urls)")
    case True
    then show ?thesis
      by (simp add: step setdefault_append_map distinct_scope_labels scope_labels_snoc
          regions_of_scope_def)
  next
    case False
    then have none: "regions_of_scope v urls ?k = []"
      by (force simp: regions_of_scope_def set_scope_labels filter_empty_conv image_iff)
    have same: "map (\<lambda>k. (k, regions_of_scope v urls k)) (scope_labels v urls) =
        map (\<lambda>k. (k, regions_of_scope v (urls @ [u]) k)) (scope_labels v urls)"
      using False by (auto simp: regions_of_scope_def)
    have new: "regions_of_scope v (urls @ [u]) ?k = [u]"
      using none by (simp add: regions_of_scope_def)
    have "build_scope_map v (urls @ [u]) =
        map (\<lambda>k. (k, regions_of_scope v urls k)) (scope_labels v urls) @ [(?k, [u])]"
      using False by (simp add: step setdefault_append_map distinct_scope_labels)
    also have "\<dots> =
        map (\<lambda>k. (k, regions_of_scope v (urls @ [u]) k)) (scope_labels v urls @ [?k])"
      by (simp add: same new)
    finally show ?thesis
      using False by (simp add: scope_labels_snoc)
  qed
qed

section \<open>The highlight differencer\<close>

lemma unused_scopes_set: "set (unused_scopes old new) = set old - set new"
  by (auto simp: unused_scopes_def)

lemma unused_scopes_distinct: "distinct (unused_scopes old new)"
  by (simp add: unused_scopes_def)

lemma inj_marker_key: "inj marker_key"
  by (simp add: inj_on_def marker_key_def)

lemma update_view_scopes_erased:
  "snd (update_view_scopes v new_scopes s) =
     map (\<lambda>x. Erase_regions (view_id v) (marker_key x))
       (unused_scopes (old_scopes_of s v) new_scopes)"
  by (simp add: update_view_scopes_def old_scopes_of_def unused_scopes_def split: option.splits)

lemma update_view_scopes_state:
  "fst (update_view_scopes v new_scopes s) =
     s\<lparr>scopes_for_view := (scopes_for_view s)(view_id v \<mapsto> new_scopes)\<rparr>"
  by (simp add: update_view_scopes_def Let_def)

text \<open>
  C4. \<^verbatim>\<open>update_view_scopes\<close>, for any stored scope set and any new one: the markers erased
  are those of the old scopes that are not among the new ones, each once, and the scope
  set stored for the view afterwards is the new one, whatever it is (the empty one
  included).
\<close>

theorem update_view_scopes_diff:
  "update_view_scopes v new_scopes s = (s', erased) \<Longrightarrow>
     set erased =
       (\<lambda>x. Erase_regions (view_id v) (marker_key x)) ` (set (old_scopes_of s v) - set new_scopes) \<and>
     distinct erased \<and>
     scopes_for_view s' (view_id v) = Some new_scopes"
proof -
  assume run: "update_view_scopes v new_scopes s = (s', erased)"
  have e: "erased = map (\<lambda>x. Erase_regions (view_id v) (marker_key x))
      (unused_scopes (old_scopes_of s v) new_scopes)"
    using run update_view_scopes_erased [of v new_scopes s] by simp
  have s': "s' = s\<lparr>scopes_for_view := (scopes_for_view s)(view_id v \<mapsto> new_scopes)\<rparr>"
    using run update_view_scopes_state [of v new_scopes s] by simp
  have inj: "inj (\<lambda>x. Erase_regions (view_id v) (marker_key x))"
    using inj_marker_key by (simp add: inj_on_def)
  have "distinct erased"
    unfolding e using inj by (simp add: distinct_map unused_scopes_distinct inj_on_def)
  moreover have "set erased =
      (\<lambda>x. Erase_regions (view_id v) (marker_key x)) ` (set (old_scopes_of s v) - set new_scopes)"
    unfolding e by (simp add: unused_scopes_set)
  moreover have "scopes_for_view s' (view_id v) = Some new_scopes"
    unfolding s' by simp
  ultimately show ?thesis by simp
qed

text \<open>
  The example of the specification: from \<^verbatim>\<open>{"a", "b"}\<close> to \<^verbatim>\<open>{"b", "c"}\<close> the markers of
  \<^verbatim>\<open>"a"\<close> alone are erased and \<^verbatim>\<open>{"b", "c"}\<close> is stored.
\<close>

theorem update_view_scopes_diff_witness:
  "update_view_scopes two_url_view [''b'', ''c''] scopes_a_b =
     (scopes_a_b\<lparr>scopes_for_view := [1 \<mapsto> [''b'', ''c'']]\<rparr>,
      [Erase_regions 1 ''clickable-urls a'']) \<and>
   set [Erase_regions 1 ''clickable-urls a''] =
     (\<lambda>x. Erase_regions (view_id two_url_view) (marker_key x)) `
       (set (old_scopes_of scopes_a_b two_url_view) - set [''b'', ''c'']) \<and>
   scopes_for_view (scopes_a_b\<lparr>scopes_for_view := [1 \<mapsto> [''b'', ''c'']]\<rparr>)
     (view_id two_url_view) = Some [''b'', ''c'']"
proof -
  have run: "update_view_scopes two_url_view [''b'', ''c''] scopes_a_b =
     (scopes_a_b\<lparr>scopes_for_view := [1 \<mapsto> [''b'', ''c'']]\<rparr>,
      [Erase_regions 1 ''clickable-urls a''])"
    by (simp add: update_view_scopes_def scopes_a_b_def initial_state_def two_url_view_def
        unused_scopes_def marker_key_def)
  show ?thesis
    using run update_view_scopes_diff [OF run] by simp
qed

section \<open>What one update does\<close>

lemma highlight_urls_eq:
  "highlight_urls h v urls s =
     (s\<lparr>scopes_for_view := (scopes_for_view s)(view_id v \<mapsto> scope_labels v urls)\<rparr>,
      map (\<lambda>k. underline_regions h v k (regions_of_scope v urls k)) (scope_labels v urls) @
      map (\<lambda>x. Erase_regions (view_id v) (marker_key x))
        (unused_scopes (old_scopes_of s v) (scope_labels v urls)))"
proof -
  have keys: "map fst (build_scope_map v urls) = scope_labels v urls"
    by (simp add: build_scope_map_eq comp_def)
  have adds: "map (\<lambda>(scope_name, regions). underline_regions h v scope_name regions)
        (build_scope_map v urls) =
      map (\<lambda>k. underline_regions h v k (regions_of_scope v urls k)) (scope_labels v urls)"
    by (simp add: build_scope_map_eq comp_def)
  obtain s' erased where u: "update_view_scopes v (scope_labels v urls) s = (s', erased)"
    by (cases "update_view_scopes v (scope_labels v urls) s")
  have s': "s' = s\<lparr>scopes_for_view := (scopes_for_view s)(view_id v \<mapsto> scope_labels v urls)\<rparr>"
    using u update_view_scopes_state [of v "scope_labels v urls" s] by simp
  have e: "erased = map (\<lambda>x. Erase_regions (view_id v) (marker_key x))
        (unused_scopes (old_scopes_of s v) (scope_labels v urls))"
    using u update_view_scopes_erased [of v "scope_labels v urls" s] by simp
  show ?thesis
    unfolding highlight_urls_def Let_def keys adds u by (simp add: s' e)
qed

lemma is_add_underline [simp]: "is_add (underline_regions h v k rs)"
  by (simp add: underline_regions_def)

lemma is_erase_underline [simp]: "\<not> is_erase (underline_regions h v k rs)"
  by (simp add: underline_regions_def)

lemma update_skipped:
  "\<not> scan_performed force st v s \<Longrightarrow> update_url_highlights h v force st s = (s, [])"
  by (auto simp: update_url_highlights_def scan_performed_def)

lemma update_over_limit:
  "scan_performed force st v s \<Longrightarrow>
   int (length (view_find_all v (scan_pattern st)))
     > settings_get (cfg_max_url_limit st) DEFAULT_MAX_URLS \<Longrightarrow>
   update_url_highlights h v force st s =
     (s\<lparr>ignored_views := ignored_views s @ [view_id v]\<rparr>,
      [Find_all (view_id v) (scan_pattern st),
       Print ''UrlHighlighter: ignoring view with %u URLs''
         (length (view_find_all v (scan_pattern st)))])"
  by (auto simp: update_url_highlights_def scan_performed_def scan_pattern_def Let_def)

lemma update_stored_only:
  "scan_performed force st v s \<Longrightarrow>
   int (length (view_find_all v (scan_pattern st)))
     \<le> settings_get (cfg_max_url_limit st) DEFAULT_MAX_URLS \<Longrightarrow>
   \<not> settings_get (cfg_highlight_urls st) True \<Longrightarrow>
   update_url_highlights h v force st s =
     (s\<lparr>urls_for_view := (urls_for_view s)(view_id v \<mapsto> view_find_all v (scan_pattern st))\<rparr>,
      [Find_all (view_id v) (scan_pattern st)])"
  by (auto simp: update_url_highlights_def scan_performed_def scan_pattern_def Let_def)

lemma update_highlighted:
  "scan_performed force st v s \<Longrightarrow>
   int (length (view_find_all v (scan_pattern st)))
     \<le> settings_get (cfg_max_url_limit st) DEFAULT_MAX_URLS \<Longrightarrow>
   settings_get (cfg_highlight_urls st) True \<Longrightarrow>
   update_url_highlights h v force st s =
     (s\<lparr>urls_for_view := (urls_for_view s)(view_id v \<mapsto> view_find_all v (scan_pattern st)),
        scopes_for_view :=
          (scopes_for_view s)(view_id v \<mapsto> scope_labels v (view_find_all v (scan_pattern st)))\<rparr>,
      Find_all (view_id v) (scan_pattern st) #
      map (\<lambda>k. underline_regions h v k (regions_of_scope v (view_find_all v (scan_pattern st)) k))
        (scope_labels v (view_find_all v (scan_pattern st))) @
      map (\<lambda>x. Erase_regions (view_id v) (marker_key x))
        (unused_scopes (old_scopes_of s v) (scope_labels v (view_find_all v (scan_pattern st)))))"
  by (auto simp: update_url_highlights_def scan_performed_def scan_pattern_def Let_def
      highlight_urls_eq old_scopes_of_def)

text \<open>The updates of the concrete inputs, evaluated.\<close>

lemmas eval_defs =
  update_url_highlights_def highlight_urls_def build_scope_map_def update_view_scopes_def
  underline_regions_def unused_scopes_def marker_key_def combined_regex_def settings_get_def
  default_settings_def limit_one_def st3_host_def initial_state_def
  two_url_view_def one_url_view_def scan_performed_def scan_pattern_def Let_def
  DEFAULT_MAX_URLS_def

lemma first_scan:
  "update_url_highlights st3_host one_url_view False limit_one initial_state =
     (initial_state\<lparr>urls_for_view := [1 \<mapsto> [Region 0 8]],
        scopes_for_view := [1 \<mapsto> [''text.plain'']]\<rparr>,
      [Find_all 1 URL_REGEX,
       Add_regions 1 ''clickable-urls text.plain'' [Region 0 8] ''text.plain''
         Draw_solid_underline])"
  by (simp add: eval_defs)

lemma scanned_once_eq:
  "scanned_once =
     initial_state\<lparr>urls_for_view := [1 \<mapsto> [Region 0 8]],
        scopes_for_view := [1 \<mapsto> [''text.plain'']]\<rparr>"
  by (simp add: scanned_once_def first_scan)

lemma second_scan:
  "update_url_highlights st3_host two_url_view False limit_one
     (initial_state\<lparr>urls_for_view := [1 \<mapsto> [Region 0 8]],
        scopes_for_view := [1 \<mapsto> [''text.plain'']]\<rparr>) =
     (initial_state\<lparr>urls_for_view := [1 \<mapsto> [Region 0 8]],
        scopes_for_view := [1 \<mapsto> [''text.plain'']], ignored_views := [1]\<rparr>,
      [Find_all 1 URL_REGEX, Print ''UrlHighlighter: ignoring view with %u URLs'' 2])"
  by (simp add: eval_defs)

lemma scanned_state_eq:
  "scanned_state =
     initial_state\<lparr>urls_for_view := [1 \<mapsto> [Region 0 8, Region 9 17]],
        scopes_for_view := [1 \<mapsto> [''text.plain'', ''comment.line'']]\<rparr>"
  by (simp add: scanned_state_def eval_defs)

section \<open>The ceiling on the number of matches\<close>

lemma ignored_view_untouched:
  assumes "i \<in> set (ignored_views s)"
  shows "i \<in> set (ignored_views (fst (update_url_highlights h v force st s))) \<and>
         urls_for_view (fst (update_url_highlights h v force st s)) i = urls_for_view s i \<and>
         scopes_for_view (fst (update_url_highlights h v force st s)) i = scopes_for_view s i"
proof (cases "scan_performed force st v s")
  case False
  then show ?thesis using assms by (simp add: update_skipped)
next
  case scan: True
  then have ne: "view_id v \<noteq> i"
    using assms by (auto simp: scan_performed_def)
  show ?thesis
  proof (cases "int (length (view_find_all v (scan_pattern st)))
      > settings_get (cfg_max_url_limit st) DEFAULT_MAX_URLS")
    case True
    with scan show ?thesis
      using assms by (simp add: update_over_limit)
  next
    case False
    then have le: "int (length (view_find_all v (scan_pattern st)))
        \<le> settings_get (cfg_max_url_limit st) DEFAULT_MAX_URLS"
      by simp
    show ?thesis
    proof (cases "settings_get (cfg_highlight_urls st) True")
      case True
      show ?thesis
        using assms ne by (simp add: update_highlighted [OF scan le True])
    next
      case False
      show ?thesis
        using assms ne by (simp add: update_stored_only [OF scan le False])
    qed
  qed
qed

lemma ignored_view_stays_untouched:
  "i \<in> set (ignored_views s) \<Longrightarrow>
     i \<in> set (ignored_views (scans calls s)) \<and>
     urls_for_view (scans calls s) i = urls_for_view s i \<and>
     scopes_for_view (scans calls s) i = scopes_for_view s i"
proof (induction calls arbitrary: s)
  case Nil
  then show ?case by simp
next
  case (Cons c calls)
  obtain h v force st where c: "c = (h, v, force, st)"
    by (cases c) auto
  let ?s1 = "fst (update_url_highlights h v force st s)"
  have one: "i \<in> set (ignored_views ?s1) \<and> urls_for_view ?s1 i = urls_for_view s i \<and>
      scopes_for_view ?s1 i = scopes_for_view s i"
    using ignored_view_untouched [OF Cons.prems] by simp
  then have "i \<in> set (ignored_views ?s1)" by simp
  from Cons.IH [OF this] one show ?case
    by (simp add: c)
qed

text \<open>
  C1, as amended. For every scan that is performed, with \<open>urls\<close> the matches it yields
  and \<open>limit\<close> the configured \<^verbatim>\<open>max_url_limit\<close> (200 when not set):
  if there are at most \<open>limit\<close> matches, they are stored for the view and the Ignore Set is
  unchanged; when the setting \<^verbatim>\<open>highlight_urls\<close> is on they are highlighted, one
  \<^verbatim>\<open>add_regions\<close> call per scope label, and when it is off no marker operation is issued
  and the scope table is unchanged.
  If there are more than \<open>limit\<close> matches, the view is added to the Ignore Set and nothing
  of this scan is stored or highlighted (the match table and the scope table are what
  they were before the scan, and no marker operation is issued). After that, through any
  sequence of later calls of \<^verbatim>\<open>update_url_highlights\<close>, on any views, the view stays in the
  Ignore Set with the entries it had before the scan, and every call for it, forced or
  not, returns without scanning and changes nothing.
  What \<^verbatim>\<open>on_close\<close> does to the Ignore Set is no part of this statement.
\<close>

theorem ceiling_policy:
  fixes v :: view and st :: settings and urls :: "region list" and limit :: int
  defines "urls \<equiv> view_find_all v (scan_pattern st)"
    and "limit \<equiv> settings_get (cfg_max_url_limit st) DEFAULT_MAX_URLS"
  assumes scan: "scan_performed force st v s"
    and run: "update_url_highlights h v force st s = (s', tr)"
  shows "(int (length urls) \<le> limit \<longrightarrow>
            urls_for_view s' (view_id v) = Some urls \<and>
            ignored_views s' = ignored_views s \<and>
            (settings_get (cfg_highlight_urls st) True \<longrightarrow>
               filter is_add tr =
                 map (\<lambda>k. underline_regions h v k (regions_of_scope v urls k))
                   (scope_labels v urls)) \<and>
            (\<not> settings_get (cfg_highlight_urls st) True \<longrightarrow>
               tr = [Find_all (view_id v) (scan_pattern st)] \<and>
               scopes_for_view s' = scopes_for_view s)) \<and>
         (limit < int (length urls) \<longrightarrow>
            view_id v \<in> set (ignored_views s') \<and>
            urls_for_view s' = urls_for_view s \<and>
            scopes_for_view s' = scopes_for_view s \<and>
            filter is_add tr = [] \<and> filter is_erase tr = [] \<and>
            (\<forall>calls.
               view_id v \<in> set (ignored_views (scans calls s')) \<and>
               urls_for_view (scans calls s') (view_id v) = urls_for_view s (view_id v) \<and>
               scopes_for_view (scans calls s') (view_id v) = scopes_for_view s (view_id v) \<and>
               (\<forall>h' v' force' st'. view_id v' = view_id v \<longrightarrow>
                  update_url_highlights h' v' force' st' (scans calls s') =
                    (scans calls s', []))))"
proof (cases "int (length urls) \<le> limit")
  case True
  then have le: "int (length (view_find_all v (scan_pattern st)))
      \<le> settings_get (cfg_max_url_limit st) DEFAULT_MAX_URLS"
    by (simp add: urls_def limit_def)
  show ?thesis
  proof (cases "settings_get (cfg_highlight_urls st) True")
    case hl: True
    have "(s', tr) = (s\<lparr>urls_for_view := (urls_for_view s)(view_id v \<mapsto> urls),
        scopes_for_view := (scopes_for_view s)(view_id v \<mapsto> scope_labels v urls)\<rparr>,
      Find_all (view_id v) (scan_pattern st) #
      map (\<lambda>k. underline_regions h v k (regions_of_scope v urls k)) (scope_labels v urls) @
      map (\<lambda>x. Erase_regions (view_id v) (marker_key x))
        (unused_scopes (old_scopes_of s v) (scope_labels v urls)))"
      using run update_highlighted [OF scan le hl, of h] by (simp add: urls_def)
    then have s': "s' = s\<lparr>urls_for_view := (urls_for_view s)(view_id v \<mapsto> urls),
        scopes_for_view := (scopes_for_view s)(view_id v \<mapsto> scope_labels v urls)\<rparr>"
      and tr: "tr = Find_all (view_id v) (scan_pattern st) #
      map (\<lambda>k. underline_regions h v k (regions_of_scope v urls k)) (scope_labels v urls) @
      map (\<lambda>x. Erase_regions (view_id v) (marker_key x))
        (unused_scopes (old_scopes_of s v) (scope_labels v urls))"
      by simp_all
    have adds: "filter is_add tr =
        map (\<lambda>k. underline_regions h v k (regions_of_scope v urls k)) (scope_labels v urls)"
      unfolding tr by (simp add: filter_map comp_def)
    show ?thesis
      using True hl adds by (simp add: s')
  next
    case nohl: False
    have "(s', tr) = (s\<lparr>urls_for_view := (urls_for_view s)(view_id v \<mapsto> urls)\<rparr>,
      [Find_all (view_id v) (scan_pattern st)])"
      using run update_stored_only [OF scan le nohl, of h] by (simp add: urls_def)
    then show ?thesis
      using True nohl by auto
  qed
next
  case False
  then have gt: "int (length (view_find_all v (scan_pattern st)))
      > settings_get (cfg_max_url_limit st) DEFAULT_MAX_URLS"
    by (simp add: urls_def limit_def)
  have eq: "(s', tr) = (s\<lparr>ignored_views := ignored_views s @ [view_id v]\<rparr>,
      [Find_all (view_id v) (scan_pattern st),
       Print ''UrlHighlighter: ignoring view with %u URLs''
         (length (view_find_all v (scan_pattern st)))])"
    using run update_over_limit [OF scan gt, of h] by simp
  then have s': "s' = s\<lparr>ignored_views := ignored_views s @ [view_id v]\<rparr>"
    and tr: "tr = [Find_all (view_id v) (scan_pattern st),
       Print ''UrlHighlighter: ignoring view with %u URLs''
         (length (view_find_all v (scan_pattern st)))]"
    by simp_all
  have ign: "view_id v \<in> set (ignored_views s')"
    by (simp add: s')
  have later: "\<forall>calls.
      view_id v \<in> set (ignored_views (scans calls s')) \<and>
      urls_for_view (scans calls s') (view_id v) = urls_for_view s (view_id v) \<and>
      scopes_for_view (scans calls s') (view_id v) = scopes_for_view s (view_id v) \<and>
      (\<forall>h' v' force' st'. view_id v' = view_id v \<longrightarrow>
         update_url_highlights h' v' force' st' (scans calls s') = (scans calls s', []))"
  proof
    fix calls
    have kept: "view_id v \<in> set (ignored_views (scans calls s')) \<and>
      urls_for_view (scans calls s') (view_id v) = urls_for_view s (view_id v) \<and>
      scopes_for_view (scans calls s') (view_id v) = scopes_for_view s (view_id v)"
      using ignored_view_stays_untouched [OF ign, of calls] by (simp add: s')
    then have "\<forall>h' v' force' st'. view_id v' = view_id v \<longrightarrow>
        update_url_highlights h' v' force' st' (scans calls s') = (scans calls s', [])"
      by (auto intro!: update_skipped simp: scan_performed_def)
    with kept show "view_id v \<in> set (ignored_views (scans calls s')) \<and>
      urls_for_view (scans calls s') (view_id v) = urls_for_view s (view_id v) \<and>
      scopes_for_view (scans calls s') (view_id v) = scopes_for_view s (view_id v) \<and>
      (\<forall>h' v' force' st'. view_id v' = view_id v \<longrightarrow>
         update_url_highlights h' v' force' st' (scans calls s') = (scans calls s', []))"
      by simp
  qed
  have tables: "urls_for_view s' = urls_for_view s" "scopes_for_view s' = scopes_for_view s"
    by (simp_all add: s')
  have marks: "filter is_add tr = []" "filter is_erase tr = []"
    by (simp_all add: tr)
  show ?thesis
    using False ign later tables marks by simp
qed

text \<open>
  The boundary: with two matches and a ceiling of 2 both matches are stored and
  highlighted; with a ceiling of 1 the view, scanned once before, is ignored, keeps the
  entry of that scan, and a forced update of it does nothing.
\<close>

theorem ceiling_policy_witness:
  "urls_for_view (fst (update_url_highlights st3_host two_url_view False limit_two initial_state)) 1 =
     Some [Region 0 8, Region 9 17] \<and>
   filter is_add (snd (update_url_highlights st3_host two_url_view False limit_two initial_state)) =
     [Add_regions 1 ''clickable-urls text.plain'' [Region 0 8] ''text.plain'' Draw_solid_underline,
      Add_regions 1 ''clickable-urls comment.line'' [Region 9 17] ''comment.line''
        Draw_solid_underline] \<and>
   1 \<in> set (ignored_views
       (fst (update_url_highlights st3_host two_url_view False limit_one scanned_once))) \<and>
   urls_for_view (fst (update_url_highlights st3_host two_url_view False limit_one scanned_once)) =
     urls_for_view scanned_once \<and>
   update_url_highlights st3_host two_url_view True default_settings
     (fst (update_url_highlights st3_host two_url_view False limit_one scanned_once)) =
     (fst (update_url_highlights st3_host two_url_view False limit_one scanned_once), [])"
proof -
  have scan1: "scan_performed False limit_two two_url_view initial_state"
    by (simp add: limit_two_def eval_defs)
  obtain s1 tr1 where run1:
    "update_url_highlights st3_host two_url_view False limit_two initial_state = (s1, tr1)"
    by (cases "update_url_highlights st3_host two_url_view False limit_two initial_state")
  have scan2: "scan_performed False limit_one two_url_view scanned_once"
    by (simp add: scanned_once_eq) (simp add: eval_defs)
  obtain s2 tr2 where run2:
    "update_url_highlights st3_host two_url_view False limit_one scanned_once = (s2, tr2)"
    by (cases "update_url_highlights st3_host two_url_view False limit_one scanned_once")
  have at_limit: "int (length (view_find_all two_url_view (scan_pattern limit_two)))
      \<le> settings_get (cfg_max_url_limit limit_two) DEFAULT_MAX_URLS"
    by (simp add: limit_two_def eval_defs)
  have over: "settings_get (cfg_max_url_limit limit_one) DEFAULT_MAX_URLS
      < int (length (view_find_all two_url_view (scan_pattern limit_one)))"
    by (simp add: eval_defs)
  have hl: "settings_get (cfg_highlight_urls limit_two) True"
    by (simp add: limit_two_def eval_defs)
  have found: "view_find_all two_url_view (scan_pattern limit_two) = [Region 0 8, Region 9 17]"
    by (simp add: two_url_view_def)
  have labels: "scope_labels two_url_view [Region 0 8, Region 9 17] =
      [''text.plain'', ''comment.line'']"
    by (simp add: scope_labels_def two_url_view_def)
  have groups:
    "regions_of_scope two_url_view [Region 0 8, Region 9 17] ''text.plain'' = [Region 0 8]"
    "regions_of_scope two_url_view [Region 0 8, Region 9 17] ''comment.line'' = [Region 9 17]"
    by (simp_all add: regions_of_scope_def two_url_view_def)
  have under: "underline_regions st3_host two_url_view ''text.plain'' [Region 0 8] =
      Add_regions 1 ''clickable-urls text.plain'' [Region 0 8] ''text.plain'' Draw_solid_underline"
    "underline_regions st3_host two_url_view ''comment.line'' [Region 9 17] =
      Add_regions 1 ''clickable-urls comment.line'' [Region 9 17] ''comment.line''
        Draw_solid_underline"
    by (simp_all add: underline_regions_def st3_host_def two_url_view_def marker_key_def)
  have id1: "view_id two_url_view = 1"
    by (simp add: two_url_view_def)
  from ceiling_policy [OF scan1 run1] at_limit hl
  have first: "urls_for_view s1 1 = Some [Region 0 8, Region 9 17] \<and>
      filter is_add tr1 =
        [Add_regions 1 ''clickable-urls text.plain'' [Region 0 8] ''text.plain''
           Draw_solid_underline,
         Add_regions 1 ''clickable-urls comment.line'' [Region 9 17] ''comment.line''
           Draw_solid_underline]"
    by (simp add: found labels groups under id1)
  from ceiling_policy [OF scan2 run2] over
  have ignored: "1 \<in> set (ignored_views s2) \<and> urls_for_view s2 = urls_for_view scanned_once \<and>
      (\<forall>calls h' v' force' st'. view_id v' = 1 \<longrightarrow>
         update_url_highlights h' v' force' st' (scans calls s2) = (scans calls s2, []))"
    by (simp add: id1)
  then have "view_id two_url_view = 1 \<longrightarrow>
      update_url_highlights st3_host two_url_view True default_settings (scans [] s2) =
        (scans [] s2, [])"
    by blast
  with ignored
  have second: "1 \<in> set (ignored_views s2) \<and> urls_for_view s2 = urls_for_view scanned_once \<and>
      update_url_highlights st3_host two_url_view True default_settings s2 = (s2, [])"
    by (simp add: id1)
  show ?thesis
    using first second by (simp add: run1 run2)
qed

text \<open>
  The claim as it is written fails on a view that was scanned before: view 1 was scanned
  with one URL, is edited to hold two and scanned again with a ceiling of 1. The scan is
  performed, it yields more matches than the ceiling, the view is put in the Ignore Set,
  and the match stored by the first scan is still stored.
\<close>

theorem over_limit_keeps_earlier_matches_counterexample:
  "scan_performed False limit_one two_url_view scanned_once \<and>
   settings_get (cfg_max_url_limit limit_one) DEFAULT_MAX_URLS
     < int (length (view_find_all two_url_view (scan_pattern limit_one))) \<and>
   view_id two_url_view
     \<in> set (ignored_views
         (fst (update_url_highlights st3_host two_url_view False limit_one scanned_once))) \<and>
   urls_for_view (fst (update_url_highlights st3_host two_url_view False limit_one scanned_once))
     (view_id two_url_view) = Some [Region 0 8]"
  by (simp add: scanned_once_eq second_scan)
     (simp add: eval_defs)

section \<open>Scopes and stored matches after a highlighting scan\<close>

text \<open>
  C5. After a scan that is performed, stays under the ceiling and highlights (the setting
  \<^verbatim>\<open>highlight_urls\<close> is on), the view has an entry in both tables, and the stored scope
  set holds, each once, exactly the scope labels at the start offsets of the stored
  matches.
\<close>

theorem stored_scopes_are_labels_of_stored_matches:
  assumes "scan_performed force st v s"
    and "int (length (view_find_all v (scan_pattern st)))
      \<le> settings_get (cfg_max_url_limit st) DEFAULT_MAX_URLS"
    and "settings_get (cfg_highlight_urls st) True"
    and "update_url_highlights h v force st s = (s', tr)"
  shows "\<exists>urls scopes.
      urls_for_view s' (view_id v) = Some urls \<and>
      scopes_for_view s' (view_id v) = Some scopes \<and>
      distinct scopes \<and>
      set scopes = (\<lambda>url. view_scope_name v (region_a url)) ` set urls"
proof -
  let ?urls = "view_find_all v (scan_pattern st)"
  have s': "s' = s\<lparr>urls_for_view := (urls_for_view s)(view_id v \<mapsto> ?urls),
        scopes_for_view := (scopes_for_view s)(view_id v \<mapsto> scope_labels v ?urls)\<rparr>"
    using assms(4) update_highlighted [OF assms(1-3), of h] by simp
  have "urls_for_view s' (view_id v) = Some ?urls"
    by (simp add: s')
  moreover have "scopes_for_view s' (view_id v) = Some (scope_labels v ?urls)"
    by (simp add: s')
  ultimately show ?thesis
    using distinct_scope_labels [of v ?urls] set_scope_labels [of v ?urls] by blast
qed

theorem stored_scopes_are_labels_of_stored_matches_witness:
  "scan_performed False default_settings two_url_view initial_state \<and>
   urls_for_view scanned_state (view_id two_url_view) = Some [Region 0 8, Region 9 17] \<and>
   scopes_for_view scanned_state (view_id two_url_view) = Some [''text.plain'', ''comment.line''] \<and>
   (\<exists>urls scopes.
      urls_for_view scanned_state (view_id two_url_view) = Some urls \<and>
      scopes_for_view scanned_state (view_id two_url_view) = Some scopes \<and>
      distinct scopes \<and>
      set scopes = (\<lambda>url. view_scope_name two_url_view (region_a url)) ` set urls)"
proof -
  have scan: "scan_performed False default_settings two_url_view initial_state"
    by (simp add: eval_defs)
  have le: "int (length (view_find_all two_url_view (scan_pattern default_settings)))
      \<le> settings_get (cfg_max_url_limit default_settings) DEFAULT_MAX_URLS"
    by (simp add: eval_defs)
  have hl: "settings_get (cfg_highlight_urls default_settings) True"
    by (simp add: eval_defs)
  obtain tr where run:
    "update_url_highlights st3_host two_url_view False default_settings initial_state =
       (scanned_state, tr)"
    by (cases "update_url_highlights st3_host two_url_view False default_settings initial_state")
       (simp add: scanned_state_def)
  have concrete:
    "urls_for_view scanned_state (view_id two_url_view) = Some [Region 0 8, Region 9 17]"
    "scopes_for_view scanned_state (view_id two_url_view) =
       Some [''text.plain'', ''comment.line'']"
    by (simp_all add: scanned_state_eq two_url_view_def)
  show ?thesis
    using scan concrete stored_scopes_are_labels_of_stored_matches [OF scan le hl run]
    by simp
qed

section \<open>Opening a URL\<close>




section \<open>Opening the URL under the cursor\<close>

lemma find_first:
  "\<forall>x \<in> set pre. \<not> P x \<Longrightarrow> P m \<Longrightarrow> find P (pre @ m # post) = Some m"
  by (induction pre) auto

lemma region_contains_point:
  "region_empty selection \<Longrightarrow>
     region_contains m selection = contains_point m (region_a selection)"
  by (auto simp: region_empty_def region_contains_def)

text \<open>
  C2, as amended. For a view with stored matches and a first selection:
  a selection that is not empty is itself the target, and its text is opened;
  an empty selection (a cursor) at an offset that no stored match contains opens nothing;
  a cursor at an offset that some stored match contains opens the text of the first such
  match in the stored order (a match of size 0 apart, which \<^verbatim>\<open>if not selection\<close> drops).
  A match contains an offset when \<^verbatim>\<open>begin \<le> offset \<le> end\<close>: the range is closed, the end
  offset included.
\<close>

theorem open_under_cursor_resolution:
  assumes stored: "urls_for_view s (view_id v) = Some urls"
    and sel: "view_sel v = selection # others"
  shows "(\<not> region_empty selection \<longrightarrow>
            OpenUrlUnderCursorCommand_run h st v s =
              (s, open_url h st (view_substr v selection))) \<and>
         (region_empty selection \<and>
          (\<forall>m \<in> set urls.
             \<not> (region_begin m \<le> region_a selection \<and> region_a selection \<le> region_end m)) \<longrightarrow>
            OpenUrlUnderCursorCommand_run h st v s = (s, [], None)) \<and>
         (\<forall>pre m post.
            region_empty selection \<and> urls = pre @ m # post \<and>
            (\<forall>m' \<in> set pre.
               \<not> (region_begin m' \<le> region_a selection \<and> region_a selection \<le> region_end m')) \<and>
            region_begin m \<le> region_a selection \<and> region_a selection \<le> region_end m \<and>
            region_begin m < region_end m \<longrightarrow>
            OpenUrlUnderCursorCommand_run h st v s = (s, open_url h st (view_substr v m)))"
proof (intro conjI allI impI)
  assume "\<not> region_empty selection"
  then show "OpenUrlUnderCursorCommand_run h st v s =
      (s, open_url h st (view_substr v selection))"
    by (simp add: OpenUrlUnderCursorCommand_run_def stored sel cursor_target_def)
next
  assume a: "region_empty selection \<and>
    (\<forall>m \<in> set urls.
       \<not> (region_begin m \<le> region_a selection \<and> region_a selection \<le> region_end m))"
  then have "find (\<lambda>url. region_contains url selection) urls = None"
    by (auto simp: find_None_iff region_contains_point contains_point_def)
  then show "OpenUrlUnderCursorCommand_run h st v s = (s, [], None)"
    using a by (simp add: OpenUrlUnderCursorCommand_run_def stored sel cursor_target_def)
next
  fix pre m post
  assume a: "region_empty selection \<and> urls = pre @ m # post \<and>
    (\<forall>m' \<in> set pre.
       \<not> (region_begin m' \<le> region_a selection \<and> region_a selection \<le> region_end m')) \<and>
    region_begin m \<le> region_a selection \<and> region_a selection \<le> region_end m \<and>
    region_begin m < region_end m"
  then have none: "\<forall>x \<in> set pre. \<not> region_contains x selection"
    and hit: "region_contains m selection"
    by (auto simp: region_contains_point contains_point_def)
  have "find (\<lambda>url. region_contains url selection) urls = Some m"
    using a find_first [OF none, of m post] hit by simp
  moreover have "region_truthy m"
    using a by (simp add: region_truthy_def region_size_def)
  ultimately show "OpenUrlUnderCursorCommand_run h st v s =
      (s, open_url h st (view_substr v m))"
    using a by (simp add: OpenUrlUnderCursorCommand_run_def stored sel cursor_target_def)
qed

text \<open>
  With the stored matches \<^verbatim>\<open>(0,5)\<close> and \<^verbatim>\<open>(10,15)\<close>: a cursor at 12 opens the text of the
  second match, a cursor at 6 opens nothing, a cursor at 5 opens the text of the first
  match, and the selection \<^verbatim>\<open>(2,4)\<close> opens its own text.
\<close>

theorem open_under_cursor_resolution_witness:
  "OpenUrlUnderCursorCommand_run st3_host default_settings (claim_view (Region 12 12)) claim_state =
     (claim_state, [Browser_launch None ''bbbbb''], None) \<and>
   OpenUrlUnderCursorCommand_run st3_host default_settings (claim_view (Region 6 6)) claim_state =
     (claim_state, [], None) \<and>
   OpenUrlUnderCursorCommand_run st3_host default_settings (claim_view (Region 5 5)) claim_state =
     (claim_state, [Browser_launch None ''aaaaa''], None) \<and>
   OpenUrlUnderCursorCommand_run st3_host default_settings (claim_view (Region 2 4)) claim_state =
     (claim_state, [Browser_launch None ''aa''], None)"
proof -
  have stored: "urls_for_view claim_state (view_id (claim_view sel)) =
      Some [Region 0 5, Region 10 15]" for sel
    by (simp add: claim_state_def claim_view_def)
  have sel: "view_sel (claim_view sel) = sel # []" for sel
    by (simp add: claim_view_def)
  have o12: "open_url st3_host default_settings
        (view_substr (claim_view (Region 12 12)) (Region 10 15)) =
      ([Browser_launch None ''bbbbb''], None)"
    and o5: "open_url st3_host default_settings
        (view_substr (claim_view (Region 5 5)) (Region 0 5)) =
      ([Browser_launch None ''aaaaa''], None)"
    and o24: "open_url st3_host default_settings
        (view_substr (claim_view (Region 2 4)) (Region 2 4)) =
      ([Browser_launch None ''aa''], None)"
    by (simp_all add: open_url_def st3_host_def default_settings_def view_substr_def
        claim_view_def region_begin_def region_end_def)
  have second: "OpenUrlUnderCursorCommand_run st3_host default_settings
        (claim_view (Region 12 12)) claim_state =
      (claim_state, [Browser_launch None ''bbbbb''], None)"
    using open_under_cursor_resolution [OF stored sel, of "Region 12 12" st3_host default_settings,
        THEN conjunct2, THEN conjunct2, rule_format, of "[Region 0 5]" "Region 10 15" "[]"]
    by (simp add: o12 region_empty_def region_begin_def region_end_def)
  have no_hit: "OpenUrlUnderCursorCommand_run st3_host default_settings
        (claim_view (Region 6 6)) claim_state =
      (claim_state, [], None)"
    using open_under_cursor_resolution [OF stored sel, of "Region 6 6" st3_host default_settings,
        THEN conjunct2, THEN conjunct1]
    by (simp add: region_empty_def region_begin_def region_end_def)
  have at_end: "OpenUrlUnderCursorCommand_run st3_host default_settings
        (claim_view (Region 5 5)) claim_state =
      (claim_state, [Browser_launch None ''aaaaa''], None)"
    using open_under_cursor_resolution [OF stored sel, of "Region 5 5" st3_host default_settings,
        THEN conjunct2, THEN conjunct2, rule_format, of "[]" "Region 0 5" "[Region 10 15]"]
    by (simp add: o5 region_empty_def region_begin_def region_end_def)
  have selected: "OpenUrlUnderCursorCommand_run st3_host default_settings
        (claim_view (Region 2 4)) claim_state =
      (claim_state, [Browser_launch None ''aa''], None)"
    using open_under_cursor_resolution [OF stored sel, of "Region 2 4" st3_host default_settings,
        THEN conjunct1]
    by (simp add: o24 region_empty_def)
  show ?thesis
    by (intro conjI second no_hit at_end selected)
qed

text \<open>
  The claim as it is written fails when the cursor stands right after a URL: in view 1
  the first match is \<^verbatim>\<open>(0,8)\<close> and the cursor is at offset 8. No half-open range
  \<^verbatim>\<open>[start, end)\<close> of a stored match contains 8, so the specification's
  \<^verbatim>\<open>resolveUnderCursor\<close> returns nothing; the command opens \<^verbatim>\<open>http://a\<close>.
\<close>

theorem cursor_after_url_counterexample:
  "urls_for_view scanned_state (view_id two_url_view) = Some [Region 0 8, Region 9 17] \<and>
   view_sel two_url_view = [Region 8 8] \<and>
   resolveUnderCursor_spec two_url_view [Region 0 8, Region 9 17] 8 = None \<and>
   OpenUrlUnderCursorCommand_run st3_host default_settings two_url_view scanned_state =
     (scanned_state, [Browser_launch None ''http://a''], None)"
  by (simp add: scanned_state_eq resolveUnderCursor_spec_def OpenUrlUnderCursorCommand_run_def
      cursor_target_def region_empty_def region_contains_def contains_point_def region_begin_def
      region_end_def region_truthy_def region_size_def view_substr_def open_url_def
      initial_state_def two_url_view_def st3_host_def default_settings_def)

section \<open>The commands on a view without stored matches\<close>

text \<open>
  C10. When the match table has no entry for the view, \<^verbatim>\<open>OpenUrlUnderCursorCommand.run\<close>
  and \<^verbatim>\<open>OpenAllUrlsCommand.run\<close> both do nothing: no effect is issued, no exception is
  raised and the state is the one they started from.
\<close>

theorem commands_without_entry_are_noops:
  "urls_for_view s (view_id v) = None \<Longrightarrow>
     OpenUrlUnderCursorCommand_run h st v s = (s, [], None) \<and>
     OpenAllUrlsCommand_run h st v s = (s, [], None)"
  by (simp add: OpenUrlUnderCursorCommand_run_def OpenAllUrlsCommand_run_def)

theorem commands_without_entry_are_noops_witness:
  "urls_for_view initial_state (view_id two_url_view) = None \<and>
   OpenUrlUnderCursorCommand_run st3_host default_settings two_url_view initial_state =
     (initial_state, [], None) \<and>
   OpenAllUrlsCommand_run st3_host default_settings two_url_view initial_state =
     (initial_state, [], None)"
proof -
  have none: "urls_for_view initial_state (view_id two_url_view) = None"
    by (simp add: initial_state_def)
  show ?thesis
    using none commands_without_entry_are_noops [OF none, of st3_host default_settings]
    by simp
qed

section \<open>Closing a view\<close>

lemma ignored_state_eq: "ignored_state = initial_state\<lparr>ignored_views := [1]\<rparr>"
  by (simp add: ignored_state_def eval_defs)

text \<open>
  C3. \<^verbatim>\<open>on_close\<close> does not remove a view from the Ignore Set. View 1 was put there by a
  scan, so \<^verbatim>\<open>ignored_views\<close> is \<^verbatim>\<open>[1]\<close>. Closing it finds 1 in the list, runs
  \<^verbatim>\<open>del ignored_views[1]\<close> and raises \<^verbatim>\<open>IndexError\<close>; the list is unchanged, and a later
  update of the view, even a forced one, returns without scanning, where the same update
  from the initial state scans and stores two matches. With \<^verbatim>\<open>ignored_views = [1, 0]\<close>,
  closing view 0 deletes the element at index 0: view 1 leaves the Ignore Set and view 0
  stays in it.
\<close>

theorem on_close_leaves_view_ignored:
  "ignored_views ignored_state = [1] \<and>
   on_close two_url_view ignored_state = (ignored_state, Some IndexError) \<and>
   update_url_highlights st3_host two_url_view True default_settings
     (fst (on_close two_url_view ignored_state)) = (ignored_state, []) \<and>
   urls_for_view
     (fst (update_url_highlights st3_host two_url_view True default_settings initial_state)) 1 =
     Some [Region 0 8, Region 9 17] \<and>
   on_close (two_url_view\<lparr>view_id := 0\<rparr>) (initial_state\<lparr>ignored_views := [1, 0]\<rparr>) =
     (initial_state\<lparr>ignored_views := [0]\<rparr>, None)"
  by (simp add: ignored_state_eq on_close_def del_index_def eval_defs)

section \<open>Opening all URLs\<close>

lemma view_not_bound: "\<not> name_bound OpenAllUrlsCommand_run_locals ''view''"
  by (simp add: name_bound_def OpenAllUrlsCommand_run_locals_def module_globals_def)

text \<open>
  C6. \<^verbatim>\<open>OpenAllUrlsCommand.run\<close> on a view with at least one stored match opens nothing:
  the first pass of the loop evaluates the unbound name \<^verbatim>\<open>view\<close> and the command ends in
  \<^verbatim>\<open>NameError\<close> with no URL handed to \<^verbatim>\<open>open_url\<close>.
\<close>

theorem open_all_raises_NameError:
  "urls_for_view s (view_id v) = Some urls \<Longrightarrow> urls \<noteq> [] \<Longrightarrow>
     OpenAllUrlsCommand_run h st v s = (s, [], Some (NameError ''view''))"
proof -
  assume stored: "urls_for_view s (view_id v) = Some urls" and ne: "urls \<noteq> []"
  from ne have "remdups (map (view_substr v) urls) \<noteq> []"
    by simp
  then obtain url rest where texts: "remdups (map (view_substr v) urls) = url # rest"
    by (cases "remdups (map (view_substr v) urls)") auto
  show ?thesis
    by (simp add: OpenAllUrlsCommand_run_def stored texts view_not_bound)
qed

text \<open>
  The example of the specification: the stored matches have the texts \<^verbatim>\<open>http://a\<close>,
  \<^verbatim>\<open>http://a\<close>, \<^verbatim>\<open>http://b\<close>, and the command raises before it opens any of them.
\<close>

theorem open_all_raises_NameError_witness:
  "urls_for_view dup_state (view_id dup_view) = Some [Region 0 8, Region 9 17, Region 18 26] \<and>
   map (view_substr dup_view) [Region 0 8, Region 9 17, Region 18 26] =
     [''http://a'', ''http://a'', ''http://b''] \<and>
   OpenAllUrlsCommand_run st3_host default_settings dup_view dup_state =
     (dup_state, [], Some (NameError ''view''))"
proof -
  have stored: "urls_for_view dup_state (view_id dup_view) =
      Some [Region 0 8, Region 9 17, Region 18 26]"
    by (simp add: dup_state_def dup_view_def eval_defs)
  have ne: "[Region 0 8, Region 9 17, Region 18 26] \<noteq> []"
    by simp
  have texts: "map (view_substr dup_view) [Region 0 8, Region 9 17, Region 18 26] =
      [''http://a'', ''http://a'', ''http://b'']"
    by (simp add: view_substr_def dup_view_def region_begin_def region_end_def)
  show ?thesis
    using stored texts open_all_raises_NameError [OF stored ne, of st3_host default_settings]
    by simp
qed

section \<open>The order of the marker operations\<close>

lemma rescan_in_comment:
  "highlight_urls st3_host comment_view [Region 3 11] scanned_once =
     (scanned_once\<lparr>scopes_for_view := [1 \<mapsto> [''comment.line'']]\<rparr>,
      [Add_regions 1 ''clickable-urls comment.line'' [Region 3 11] ''comment.line''
         Draw_solid_underline,
       Erase_regions 1 ''clickable-urls text.plain''])"
  by (simp add: scanned_once_eq highlight_urls_def build_scope_map_def update_view_scopes_def
      underline_regions_def unused_scopes_def marker_key_def comment_view_def st3_host_def
      initial_state_def)

text \<open>
  C8, as amended. The marker operations of \<^verbatim>\<open>highlight_urls\<close> are, in this order: first
  one \<^verbatim>\<open>add_regions\<close> call for every distinct scope label of the matches, with the matches
  of that label, under the marker key and the style scope of that label; then one
  \<^verbatim>\<open>erase_regions\<close> call for every scope of the old scope set that is not a label of the
  new matches. The keys added and the keys erased are disjoint.
\<close>

theorem marker_operations_order:
  "highlight_urls h v urls s = (s', tr) \<Longrightarrow>
     tr = map (\<lambda>k. underline_regions h v k (regions_of_scope v urls k)) (scope_labels v urls) @
          map (\<lambda>x. Erase_regions (view_id v) (marker_key x))
            (unused_scopes (old_scopes_of s v) (scope_labels v urls)) \<and>
     distinct (scope_labels v urls) \<and>
     set (scope_labels v urls) = (\<lambda>url. view_scope_name v (region_a url)) ` set urls \<and>
     distinct (unused_scopes (old_scopes_of s v) (scope_labels v urls)) \<and>
     set (unused_scopes (old_scopes_of s v) (scope_labels v urls)) =
       set (old_scopes_of s v) - set (scope_labels v urls) \<and>
     (\<forall>k rs. \<exists>regions flags.
        underline_regions h v k rs = Add_regions (view_id v) (marker_key k) regions k flags)"
proof -
  assume run: "highlight_urls h v urls s = (s', tr)"
  have tr: "tr =
      map (\<lambda>k. underline_regions h v k (regions_of_scope v urls k)) (scope_labels v urls) @
      map (\<lambda>x. Erase_regions (view_id v) (marker_key x))
        (unused_scopes (old_scopes_of s v) (scope_labels v urls))"
    using run by (simp add: highlight_urls_eq)
  have group: "\<forall>k rs. \<exists>regions flags.
      underline_regions h v k rs = Add_regions (view_id v) (marker_key k) regions k flags"
    by (simp add: underline_regions_def)
  show ?thesis
    using tr group
    by (simp add: distinct_scope_labels set_scope_labels unused_scopes_distinct unused_scopes_set)
qed

theorem marker_operations_order_witness:
  "highlight_urls st3_host comment_view [Region 3 11] scanned_once =
     (scanned_once\<lparr>scopes_for_view := [1 \<mapsto> [''comment.line'']]\<rparr>,
      [Add_regions 1 ''clickable-urls comment.line'' [Region 3 11] ''comment.line''
         Draw_solid_underline,
       Erase_regions 1 ''clickable-urls text.plain'']) \<and>
   scope_labels comment_view [Region 3 11] = [''comment.line''] \<and>
   unused_scopes (old_scopes_of scanned_once comment_view) (scope_labels comment_view [Region 3 11]) =
     [''text.plain'']"
proof -
  have labels: "scope_labels comment_view [Region 3 11] = [''comment.line'']"
    by (simp add: scope_labels_def comment_view_def)
  have unused: "unused_scopes (old_scopes_of scanned_once comment_view) [''comment.line''] =
      [''text.plain'']"
    by (simp add: unused_scopes_def old_scopes_of_def scanned_once_eq comment_view_def)
  show ?thesis
    using marker_operations_order [OF rescan_in_comment] rescan_in_comment labels unused
    by simp
qed

text \<open>
  The claim as it is written fails whenever a scope is dropped while another is
  highlighted: view 1 was highlighted in \<^verbatim>\<open>text.plain\<close> and its URL now lies in a comment.
  The \<^verbatim>\<open>add_regions\<close> call for \<^verbatim>\<open>comment.line\<close> is issued first and the \<^verbatim>\<open>erase_regions\<close>
  call for \<^verbatim>\<open>text.plain\<close> after it.
\<close>

theorem add_precedes_erase_counterexample:
  "snd (highlight_urls st3_host comment_view [Region 3 11] scanned_once) =
     [Add_regions 1 ''clickable-urls comment.line'' [Region 3 11] ''comment.line''
        Draw_solid_underline,
      Erase_regions 1 ''clickable-urls text.plain''] \<and>
   \<not> erases_before_adds (snd (highlight_urls st3_host comment_view [Region 3 11] scanned_once))"
  by (simp add: rescan_in_comment)

section \<open>The semaphore\<close>

text \<open>
  C9. \<^verbatim>\<open>on_activated\<close> runs the scan-and-store sequence without the semaphore. On a host
  of version 3126, while the semaphore is taken (its counter is 0, another scan is in its
  locked section), \<^verbatim>\<open>on_modified_async\<close> does not proceed, but \<^verbatim>\<open>on_activated\<close> scans view 1,
  stores its match and its scope in the two tables and issues the marker operation. With
  the semaphore free it does the same and its effects do not keep the lock discipline:
  no effect acquires the semaphore. Its siblings do what the claim says:
  \<^verbatim>\<open>on_modified_async\<close> makes the same changes between \<^verbatim>\<open>acquire\<close> and \<^verbatim>\<open>release\<close>, and
  \<^verbatim>\<open>on_modified\<close>, guarded to hosts before 3000, does nothing on this host.
\<close>

theorem on_activated_scans_without_semaphore:
  "sublime_version st3_host = ''3126'' \<and>
   on_modified_async st3_host one_url_view default_settings
     (initial_state\<lparr>highlight_semaphore := 0\<rparr>) = None \<and>
   on_activated st3_host one_url_view default_settings
     (initial_state\<lparr>highlight_semaphore := 0\<rparr>) =
     (initial_state\<lparr>urls_for_view := [1 \<mapsto> [Region 0 8]],
        scopes_for_view := [1 \<mapsto> [''text.plain'']], highlight_semaphore := 0\<rparr>,
      [Find_all 1 URL_REGEX,
       Add_regions 1 ''clickable-urls text.plain'' [Region 0 8] ''text.plain''
         Draw_solid_underline]) \<and>
   on_activated st3_host one_url_view default_settings initial_state =
     (initial_state\<lparr>urls_for_view := [1 \<mapsto> [Region 0 8]],
        scopes_for_view := [1 \<mapsto> [''text.plain'']]\<rparr>,
      [Find_all 1 URL_REGEX,
       Add_regions 1 ''clickable-urls text.plain'' [Region 0 8] ''text.plain''
         Draw_solid_underline]) \<and>
   \<not> lock_discipline False
       (snd (on_activated st3_host one_url_view default_settings initial_state)) \<and>
   on_modified_async st3_host one_url_view default_settings initial_state =
     Some (initial_state\<lparr>urls_for_view := [1 \<mapsto> [Region 0 8]],
             scopes_for_view := [1 \<mapsto> [''text.plain'']]\<rparr>,
           [Sem_acquire, Find_all 1 URL_REGEX,
            Add_regions 1 ''clickable-urls text.plain'' [Region 0 8] ''text.plain''
              Draw_solid_underline,
            Sem_release]) \<and>
   lock_discipline False
     [Sem_acquire, Find_all 1 URL_REGEX,
      Add_regions 1 ''clickable-urls text.plain'' [Region 0 8] ''text.plain''
        Draw_solid_underline,
      Sem_release] \<and>
   on_modified st3_host one_url_view default_settings initial_state = (initial_state, [])"
  by (simp add: on_activated_def on_modified_def on_modified_async_def
      update_url_highlights_async_def eval_defs)

end
